theory Spec2Isabelle
  imports Main "HOL-Library.Char_ord" "HOL-Library.List_Lexorder"
begin

section \<open>Star-schema rewriting of SQL text in the DuckDB backend\<close>

text \<open>
  The development follows \<^verbatim>\<open>src/ibis/backends/duckdb/__init__.py\<close>: the class attribute
  \<^verbatim>\<open>override_schemas\<close>, \<^verbatim>\<open>register_schema\<close> and \<^verbatim>\<open>rewrite_sql\<close> with its two inner
  callbacks \<^verbatim>\<open>get_table_and_column_names\<close> and \<^verbatim>\<open>rewrite_from\<close>.

  The SQL parser, optimizer and printer (sqlglot) are an external library. Their text
  processing is not modelled: \<^verbatim>\<open>optimize\<close>, \<^verbatim>\<open>parse_one\<close> and \<^verbatim>\<open>.sql()\<close> are parameters
  of the model, and so is the order in which Python iterates over a \<^verbatim>\<open>set\<close>, which the
  language leaves unspecified.
\<close>

subsection \<open>Errors\<close>

datatype error =
  ParseError string
  | KeyError string

subsection \<open>The query tree\<close>

text \<open>
  A node of the parsed tree is a \<^verbatim>\<open>From\<close> node (table name, optional alias), a \<^verbatim>\<open>Column\<close>
  node (column name, optional table qualifier) or any other node (kept with a label). Every
  node has a list of children. A \<^verbatim>\<open>From\<close> node over a derived table has the empty name.
\<close>

datatype kind =
  From string "string option"
  | Column string "string option"
  | Other string

datatype expr = Node kind "expr list"

fun is_From :: "expr \<Rightarrow> bool" where
  "is_From (Node (From n a) cs) = True"
| "is_From (Node k cs) = False"

fun is_Column :: "expr \<Rightarrow> bool" where
  "is_Column (Node (Column n q) cs) = True"
| "is_Column (Node k cs) = False"

text \<open>\<^verbatim>\<open>node.name\<close>: the table name of a \<^verbatim>\<open>From\<close> node, the bare name of a \<^verbatim>\<open>Column\<close> node.\<close>

fun name :: "expr \<Rightarrow> string" where
  "name (Node (From n a) cs) = n"
| "name (Node (Column n q) cs) = n"
| "name (Node (Other l) cs) = []"

text \<open>\<^verbatim>\<open>node.alias_or_name\<close>: the alias when there is a non-empty one, else the name.\<close>

fun alias_or_name :: "expr \<Rightarrow> string" where
  "alias_or_name (Node (From n a) cs) =
     (case a of None \<Rightarrow> n | Some al \<Rightarrow> if al = [] then n else al)"
| "alias_or_name (Node (Column n q) cs) = n"
| "alias_or_name (Node (Other l) cs) = []"

text \<open>
  \<^verbatim>\<open>tree.transform(fun)\<close> of the tree library: \<^verbatim>\<open>fun\<close> is applied to a node before its
  children (pre-order). When it returns another node, that node takes the place of the
  visited one and is not descended into; when it returns the very node it was given, the
  children are transformed in turn. The callback's result \<open>None\<close> stands for "the same
  node", \<open>Some n\<close> for the replacement \<open>n\<close>. The callbacks of \<^verbatim>\<open>rewrite_sql\<close> write to
  variables of the enclosing function and may raise: the state \<open>'s\<close> is threaded through
  the traversal and an error ends it.
\<close>

fun transform :: "('s \<Rightarrow> expr \<Rightarrow> error + 's \<times> expr option) \<Rightarrow> 's \<Rightarrow> expr \<Rightarrow> error + 's \<times> expr"
  and transform_children ::
    "('s \<Rightarrow> expr \<Rightarrow> error + 's \<times> expr option) \<Rightarrow> 's \<Rightarrow> expr list \<Rightarrow> error + 's \<times> expr list"
  where
  "transform f s (Node k cs) =
     (case f s (Node k cs) of
        Inl e \<Rightarrow> Inl e
      | Inr (s', Some new_node) \<Rightarrow> Inr (s', new_node)
      | Inr (s', None) \<Rightarrow>
          (case transform_children f s' cs of
             Inl e \<Rightarrow> Inl e
           | Inr (s'', cs') \<Rightarrow> Inr (s'', Node k cs')))"
| "transform_children f s [] = Inr (s, [])"
| "transform_children f s (c # cs) =
     (case transform f s c of
        Inl e \<Rightarrow> Inl e
      | Inr (s', c') \<Rightarrow>
          (case transform_children f s' cs of
             Inl e \<Rightarrow> Inl e
           | Inr (s'', cs') \<Rightarrow> Inr (s'', c' # cs')))"

text \<open>All nodes of a tree, a node before its children: "anywhere in the tree".\<close>

fun nodes :: "expr \<Rightarrow> expr list" and nodes_list :: "expr list \<Rightarrow> expr list" where
  "nodes (Node k cs) = Node k cs # nodes_list cs"
| "nodes_list [] = []"
| "nodes_list (c # cs) = nodes c @ nodes_list cs"

subsection \<open>The external library and the runtime\<close>

text \<open>
  \<^item> \<open>optimize\<close>: \<^verbatim>\<open>sqlglot.optimizer.optimize(sql)\<close>, text to tree, may raise;
  \<^item> \<open>parse_one\<close>: \<^verbatim>\<open>parse_one(text, into=exp.From)\<close>, may raise;
  \<^item> \<open>sql\<close>: \<^verbatim>\<open>tree.sql()\<close>, the printer;
  \<^item> \<open>iter\<close>: the order in which a \<^verbatim>\<open>for\<close> loop or \<^verbatim>\<open>str.join\<close> runs through a set of
    strings. The order of a Python set depends on the hash seed of the process and on how
    the set was filled; one call of \<^verbatim>\<open>rewrite_sql\<close> runs through a set only while it is
    not modified, and no statement below assumes anything of \<open>iter\<close> on two different sets.
\<close>

record extern =
  optimize :: "string \<Rightarrow> error + expr"
  parse_one :: "string \<Rightarrow> error + expr"
  sql :: "expr \<Rightarrow> string"
  iter :: "string set \<Rightarrow> string list"

text \<open>What Python guarantees of the iteration over a set: every element, once.\<close>

definition iter_ok :: "(string set \<Rightarrow> string list) \<Rightarrow> bool" where
  "iter_ok it \<longleftrightarrow> (\<forall>S. finite S \<longrightarrow> set (it S) = S \<and> distinct (it S))"

subsection \<open>The schema registry\<close>

text \<open>
  A schema is the dictionary with the keys \<^verbatim>\<open>'fact'\<close>, \<^verbatim>\<open>'dimension_tables'\<close> (dimension
  table to joining key) and \<^verbatim>\<open>'col_to_table_map'\<close> (column to owning table), as in the
  sample of the source; a dictionary that lacks one of the three keys is not modelled.
  \<^verbatim>\<open>override_schemas\<close> maps a logical table name to its schema.
\<close>

record schema =
  fact :: string
  dimension_tables :: "string \<rightharpoonup> string"
  col_to_table_map :: "string \<rightharpoonup> string"

type_synonym registry = "string \<rightharpoonup> schema"


subsection \<open>\<^verbatim>\<open>rewrite_sql\<close>\<close>

text \<open>The first callback: it records names and returns the node it was given.\<close>

definition get_table_and_column_names ::
  "string set \<times> string set \<Rightarrow> expr \<Rightarrow> error + (string set \<times> string set) \<times> expr option" where
  "get_table_and_column_names st node =
     (case st of (table_names, column_names) \<Rightarrow>
        let table_names =
              (if is_From node \<and> name node \<noteq> [] then insert (name node) table_names
               else table_names);
            column_names =
              (if is_Column node then insert (name node) column_names else column_names)
        in Inr ((table_names, column_names), None))"

text \<open>\<^verbatim>\<open>sep.join(xs)\<close>\<close>

fun str_join :: "string \<Rightarrow> string list \<Rightarrow> string" where
  "str_join sep [] = []"
| "str_join sep [x] = x"
| "str_join sep (x # y # ys) = x @ sep @ str_join sep (y # ys)"

text \<open>The loop \<^verbatim>\<open>for col in column_names\<close> that collects the dimension tables to join.\<close>

fun collect_dims :: "schema \<Rightarrow> string list \<Rightarrow> string set \<Rightarrow> string set" where
  "collect_dims schema [] dim_to_join = dim_to_join"
| "collect_dims schema (col # cols) dim_to_join =
     (case col_to_table_map schema col of
        None \<Rightarrow> collect_dims schema cols dim_to_join
      | Some dim_name \<Rightarrow>
          if dim_name = fact schema then collect_dims schema cols dim_to_join
          else collect_dims schema cols (insert dim_name dim_to_join))"

text \<open>
  The loop \<^verbatim>\<open>for dim in dim_to_join\<close>; \<^verbatim>\<open>schema['dimension_tables'][dim]\<close> raises
  \<^verbatim>\<open>KeyError\<close> for a table that is no key of the dictionary.
\<close>

fun join_clauses_loop :: "schema \<Rightarrow> string list \<Rightarrow> string list \<Rightarrow> error + string list" where
  "join_clauses_loop schema [] join_clauses = Inr join_clauses"
| "join_clauses_loop schema (dim # dims) join_clauses =
     (case dimension_tables schema dim of
        None \<Rightarrow> Inl (KeyError dim)
      | Some joining_col \<Rightarrow>
          let join_string = fact schema @ ''.'' @ joining_col @ ''='' @ dim @ ''.'' @ joining_col
          in join_clauses_loop schema dims (join_clauses @ [join_string]))"

text \<open>The text \<^verbatim>\<open>rewrite_string\<close> built for one table (lines 193 to 218).\<close>

definition rewrite_string :: "extern \<Rightarrow> schema \<Rightarrow> string set \<Rightarrow> error + string" where
  "rewrite_string ext schema column_names =
     (let dim_to_join = collect_dims schema (iter ext column_names) {} in
      if dim_to_join = {} then Inr (''FROM '' @ fact schema)
      else
        (case join_clauses_loop schema (iter ext dim_to_join) [] of
           Inl e \<Rightarrow> Inl e
         | Inr join_clauses \<Rightarrow>
             let join_clause = str_join '' AND '' join_clauses;
                 dim_to_join = insert (fact schema) dim_to_join;
                 table_clause = str_join '','' (iter ext dim_to_join)
             in Inr (''FROM (SELECT * FROM '' @ table_clause @ '' WHERE '' @ join_clause @ '')'')))"

text \<open>The text handed to the parser for one \<^verbatim>\<open>From\<close> node: \<^verbatim>\<open>updated\<close>.\<close>

definition updated_text :: "string \<Rightarrow> expr \<Rightarrow> string" where
  "updated_text rewrite_str node =
     (let updated = rewrite_str in
      if alias_or_name node \<noteq> [] then updated @ '' AS '' @ alias_or_name node else updated)"

text \<open>The second callback.\<close>

definition rewrite_from ::
  "extern \<Rightarrow> string \<Rightarrow> string \<Rightarrow> unit \<Rightarrow> expr \<Rightarrow> error + unit \<times> expr option" where
  "rewrite_from ext table_name rewrite_str u node =
     (if is_From node \<and> name node = table_name then
        (case parse_one ext (updated_text rewrite_str node) of
           Inl e \<Rightarrow> Inl e
         | Inr new_node \<Rightarrow> Inr (u, Some new_node))
      else Inr (u, None))"

text \<open>The body of the loop \<^verbatim>\<open>for table_name in table_names\<close>.\<close>

definition rewrite_table ::
  "extern \<Rightarrow> registry \<Rightarrow> string set \<Rightarrow> expr \<Rightarrow> string \<Rightarrow> error + expr" where
  "rewrite_table ext override_schemas column_names expression_tree table_name =
     (case override_schemas table_name of
        None \<Rightarrow> Inr expression_tree
      | Some schema \<Rightarrow>
          if dom (dimension_tables schema) = {} then Inr expression_tree
          else
            (case rewrite_string ext schema column_names of
               Inl e \<Rightarrow> Inl e
             | Inr rewrite_str \<Rightarrow>
                 (case transform (rewrite_from ext table_name rewrite_str) () expression_tree of
                    Inl e \<Rightarrow> Inl e
                  | Inr (u, t) \<Rightarrow> Inr t)))"

fun rewrite_tables ::
  "extern \<Rightarrow> registry \<Rightarrow> string set \<Rightarrow> string list \<Rightarrow> expr \<Rightarrow> error + expr" where
  "rewrite_tables ext override_schemas column_names [] expression_tree = Inr expression_tree"
| "rewrite_tables ext override_schemas column_names (table_name # rest) expression_tree =
     (case rewrite_table ext override_schemas column_names expression_tree table_name of
        Inl e \<Rightarrow> Inl e
      | Inr t \<Rightarrow> rewrite_tables ext override_schemas column_names rest t)"

definition rewrite_sql :: "extern \<Rightarrow> registry \<Rightarrow> string \<Rightarrow> error + string" where
  "rewrite_sql ext override_schemas sql_text =
     (case optimize ext sql_text of
        Inl e \<Rightarrow> Inl e
      | Inr expression_tree \<Rightarrow>
          (case transform get_table_and_column_names ({}, {}) expression_tree of
             Inl e \<Rightarrow> Inl e
           | Inr ((table_names, column_names), expression_tree) \<Rightarrow>
               if column_names = {} then Inr sql_text
               else
                 (case rewrite_tables ext override_schemas column_names
                         (iter ext table_names) expression_tree of
                    Inl e \<Rightarrow> Inl e
                  | Inr t \<Rightarrow> Inr (sql ext t))))"

text \<open>
  The names for which the loop body gets as far as the rewrite: registered, with at least
  one dimension table (lines 186 to 191).
\<close>

definition rewritable :: "registry \<Rightarrow> string \<Rightarrow> bool" where
  "rewritable override_schemas table_name =
     (case override_schemas table_name of
        None \<Rightarrow> False
      | Some schema \<Rightarrow> dom (dimension_tables schema) \<noteq> {})"

subsection \<open>What a per-table rewrite may change\<close>


subsection \<open>A sample instance for the worked examples\<close>

text \<open>
  The registry entry of the sample in the source, cut down to one dimension table, and a
  registration without dimension tables.
\<close>

definition accidents_schema :: schema where
  "accidents_schema =
     \<lparr>fact = ''accidents_fact'',
      dimension_tables = [''accidents_dim1'' \<mapsto> ''p1''],
      col_to_table_map = [''ID'' \<mapsto> ''accidents_fact'', ''Severity'' \<mapsto> ''accidents_dim1'']\<rparr>"

definition trips_schema :: schema where
  "trips_schema =
     \<lparr>fact = ''trips_fact'',
      dimension_tables = Map.empty,
      col_to_table_map = [''ID'' \<mapsto> ''trips_fact'']\<rparr>"

definition sample_registry :: registry where
  "sample_registry = [''accidents'' \<mapsto> accidents_schema, ''trips'' \<mapsto> trips_schema]"

text \<open>Four trees as the parser could return them.\<close>

definition tree_star :: expr where
  "tree_star =
     Node (Other ''SELECT'')
       [Node (Other ''*'') [], Node (From ''accidents'' None) [], Node (Other ''LIMIT 5'') []]"


definition tree_trips :: expr where
  "tree_trips =
     Node (Other ''SELECT'') [Node (Column ''ID'' None) [], Node (From ''trips'' None) []]"

definition tree_union :: expr where
  "tree_union =
     Node (Other ''UNION'')
       [Node (Other ''SELECT'')
          [Node (Column ''ID'' (Some ''a'')) [], Node (From ''accidents'' (Some ''a'')) []],
        Node (Other ''SELECT'')
          [Node (Column ''ID'' None) [], Node (From ''accidents'' None) []],
        Node (Other ''SELECT'')
          [Node (Column ''ID'' None) [], Node (From ''weather'' None) []]]"

text \<open>
  Trees for texts with quoted identifiers, which the optimizer keeps in their case; it
  qualifies the columns and gives the table its own name as alias.
\<close>

definition tree_fact_q :: expr where
  "tree_fact_q =
     Node (Other ''SELECT'')
       [Node (Column ''ID'' (Some ''accidents'')) [],
        Node (From ''accidents'' (Some ''accidents'')) []]"

definition tree_join_q :: expr where
  "tree_join_q =
     Node (Other ''SELECT'')
       [Node (Column ''ID'' (Some ''accidents'')) [],
        Node (Column ''Severity'' (Some ''accidents'')) [],
        Node (From ''accidents'' (Some ''accidents'')) []]"

definition sample_optimize :: "string \<Rightarrow> error + expr" where
  "sample_optimize text =
     (case map_of
        [(''select * from accidents limit 5'', tree_star),
         (''SELECT \"ID\" FROM accidents'', tree_fact_q),
         (''SELECT \"ID\", \"Severity\" FROM accidents'', tree_join_q),
         (''SELECT ID FROM trips'', tree_trips)] text of
        None \<Rightarrow> Inl (ParseError text)
      | Some t \<Rightarrow> Inr t)"

text \<open>
  A small parser for the two texts \<^verbatim>\<open>rewrite_from\<close> builds: \<^verbatim>\<open>FROM name AS alias\<close> gives a
  \<^verbatim>\<open>From\<close> node of that name, \<^verbatim>\<open>FROM (...) AS alias\<close> a nameless \<^verbatim>\<open>From\<close> node over the
  derived table, whose text is kept as one leaf.
\<close>

fun split_AS :: "string \<Rightarrow> string \<times> string option" where
  "split_AS [] = ([], None)"
| "split_AS (c # cs) =
     (if take 4 (c # cs) = '' AS '' then ([], Some (drop 4 (c # cs)))
      else (case split_AS cs of (body, al) \<Rightarrow> (c # body, al)))"

definition sample_parse_one :: "string \<Rightarrow> error + expr" where
  "sample_parse_one text =
     (if take 5 text \<noteq> ''FROM '' \<or> length text \<le> 5 then Inl (ParseError text)
      else
        (case split_AS (drop 5 text) of (body, al) \<Rightarrow>
           if take 1 body = ''('' then Inr (Node (From [] al) [Node (Other body) []])
           else Inr (Node (From body al) [])))"

fun sample_sql :: "expr \<Rightarrow> string" and sample_sql_list :: "expr list \<Rightarrow> string" where
  "sample_sql (Node (From n a) cs) =
     ''FROM'' @ (if n = [] then [] else '' '' @ n) @ sample_sql_list cs @
       (case a of None \<Rightarrow> [] | Some al \<Rightarrow> '' AS '' @ al)"
| "sample_sql (Node (Column n q) cs) = (case q of None \<Rightarrow> n | Some t \<Rightarrow> t @ ''.'' @ n)"
| "sample_sql (Node (Other l) cs) = l @ sample_sql_list cs"
| "sample_sql_list [] = []"
| "sample_sql_list (c # cs) = '' '' @ sample_sql c @ sample_sql_list cs"

definition sample_ext :: extern where
  "sample_ext =
     \<lparr>optimize = sample_optimize, parse_one = sample_parse_one, sql = sample_sql,
      iter = sorted_list_of_set\<rparr>"

text \<open>The same library under a runtime that runs through a set in the opposite order.\<close>

definition sample_ext_rev :: extern where
  "sample_ext_rev = sample_ext\<lparr>iter := (\<lambda>S. rev (sorted_list_of_set S))\<rparr>"


section \<open>Auxiliary facts\<close>

lemma collect_dims_eq:
  "collect_dims schema cols D =
     D \<union> {d. \<exists>c \<in> set cols. col_to_table_map schema c = Some d \<and> d \<noteq> fact schema}"
  by (induction cols arbitrary: D) (auto split: option.splits)

lemma finite_collect_dims: "finite D \<Longrightarrow> finite (collect_dims schema cols D)"
  by (induction cols arbitrary: D) (auto split: option.splits)

lemma plan_eq:
  assumes "iter_ok (iter ext)" and "finite column_names"
  shows "collect_dims schema (iter ext column_names) {} =
     {d. \<exists>c \<in> column_names. col_to_table_map schema c = Some d \<and> d \<noteq> fact schema}"
proof -
  from assms have "set (iter ext column_names) = column_names"
    by (simp add: iter_ok_def)
  then show ?thesis
    by (simp add: collect_dims_eq)
qed

lemma join_clauses_loop_ok:
  "set dims \<subseteq> dom (dimension_tables schema) \<Longrightarrow>
   join_clauses_loop schema dims acc =
     Inr (acc @ map (\<lambda>dim. fact schema @ ''.'' @ the (dimension_tables schema dim) @ ''='' @
                          dim @ ''.'' @ the (dimension_tables schema dim)) dims)"
  by (induction dims arbitrary: acc) (auto split: option.splits)

lemma extract_gen:
  "transform get_table_and_column_names (T, C) t =
     Inr ((T \<union> name ` {n \<in> set (nodes t). is_From n \<and> name n \<noteq> []},
           C \<union> name ` {n \<in> set (nodes t). is_Column n}), t)"
  "transform_children get_table_and_column_names (T, C) ts =
     Inr ((T \<union> name ` {n \<in> set (nodes_list ts). is_From n \<and> name n \<noteq> []},
           C \<union> name ` {n \<in> set (nodes_list ts). is_Column n}), ts)"
proof (induction "get_table_and_column_names" "(T, C)" t
    and "get_table_and_column_names" "(T, C)" ts
    arbitrary: T C and T C rule: transform_transform_children.induct)
  case (1 k cs)
  then show ?case
    by (auto simp: get_table_and_column_names_def Let_def)
next
  case 2
  then show ?case by simp
next
  case (3 c cs)
  then show ?case by (auto simp: Un_assoc)
qed




lemma plan_within_dimension_tables:
  assumes "ran (col_to_table_map schema) \<subseteq> insert (fact schema) (dom (dimension_tables schema))"
  shows "collect_dims schema cols {} \<subseteq> dom (dimension_tables schema)"
proof
  fix d
  assume "d \<in> collect_dims schema cols {}"
  then obtain c where "col_to_table_map schema c = Some d" and ne: "d \<noteq> fact schema"
    by (auto simp: collect_dims_eq)
  then have "d \<in> ran (col_to_table_map schema)"
    by (auto simp: ran_def)
  with assms ne show "d \<in> dom (dimension_tables schema)"
    by auto
qed




lemma rewrite_table_not_rewritable:
  "\<not> rewritable override_schemas x \<Longrightarrow>
     rewrite_table ext override_schemas column_names t x = Inr t"
  by (auto simp: rewritable_def rewrite_table_def split: option.splits)

lemma rewrite_tables_none_rewritable:
  "\<forall>x \<in> set xs. \<not> rewritable override_schemas x \<Longrightarrow>
     rewrite_tables ext override_schemas column_names xs t = Inr t"
  by (induction xs) (simp_all add: rewrite_table_not_rewritable)

lemma rewrite_tables_one_rewritable:
  assumes "distinct xs"
    and "\<forall>x \<in> set xs. x \<noteq> table_name \<longrightarrow> \<not> rewritable override_schemas x"
  shows "rewrite_tables ext override_schemas column_names xs t =
     (if table_name \<in> set xs then rewrite_table ext override_schemas column_names t table_name
      else Inr t)"
  using assms
proof (induction xs)
  case Nil
  show ?case by simp
next
  case (Cons x xs)
  show ?case
  proof (cases "x = table_name")
    case True
    with Cons.prems have "\<forall>y \<in> set xs. \<not> rewritable override_schemas y"
      by auto
    then have "\<And>t1. rewrite_tables ext override_schemas column_names xs t1 = Inr t1"
      by (rule rewrite_tables_none_rewritable)
    with True show ?thesis
      by (simp split: sum.splits)
  next
    case False
    with Cons.prems have "\<not> rewritable override_schemas x"
      by simp
    then have "rewrite_table ext override_schemas column_names t x = Inr t"
      by (rule rewrite_table_not_rewritable)
    with False Cons show ?thesis
      by simp
  qed
qed

lemma rewrite_table_fact_only:
  assumes "iter_ok (iter ext)" and "finite column_names"
    and "\<forall>schema. override_schemas table_name = Some schema \<longrightarrow>
           {d. \<exists>c \<in> column_names. col_to_table_map schema c = Some d \<and> d \<noteq> fact schema} = {}"
  shows "rewrite_table ext override_schemas column_names t table_name =
     (if rewritable override_schemas table_name
      then (case transform
                   (rewrite_from ext table_name
                      (''FROM '' @ fact (the (override_schemas table_name)))) () t of
              Inl e \<Rightarrow> Inl e
            | Inr (u, t') \<Rightarrow> Inr t')
      else Inr t)"
proof (cases "override_schemas table_name")
  case None
  then show ?thesis
    by (simp add: rewrite_table_def rewritable_def)
next
  case (Some schema)
  with assms(3) have "{d. \<exists>c \<in> column_names.
      col_to_table_map schema c = Some d \<and> d \<noteq> fact schema} = {}"
    by simp
  with plan_eq [OF assms(1,2), of schema]
  have "rewrite_string ext schema column_names = Inr (''FROM '' @ fact schema)"
    by (simp add: rewrite_string_def)
  with Some show ?thesis
    by (simp add: rewrite_table_def rewritable_def)
qed

section \<open>The claims\<close>



text \<open>
  C2. The plan computed for a schema and a set of column names is exactly the set of tables,
  other than the fact table, that \<^verbatim>\<open>col_to_table_map\<close> gives as the owner of a referenced
  column. Columns owned by the fact table and columns without an entry add nothing, and no
  error arises from them. With an empty plan the replacement is the bare fact table.
\<close>

theorem plan_is_owning_dimensions:
  assumes "iter_ok (iter ext)" and "finite column_names"
  shows "collect_dims schema (iter ext column_names) {} =
           {d. \<exists>c \<in> column_names. col_to_table_map schema c = Some d \<and> d \<noteq> fact schema} \<and>
         (collect_dims schema (iter ext column_names) {} = {} \<longrightarrow>
            rewrite_string ext schema column_names = Inr (''FROM '' @ fact schema))"
  using plan_eq [OF assms] by (simp add: rewrite_string_def)

theorem plan_is_owning_dimensions_witness:
  "iter_ok (iter sample_ext) \<and>
   collect_dims accidents_schema (iter sample_ext {''ID'', ''Severity'', ''Other''}) {} =
     {''accidents_dim1''} \<and>
   collect_dims accidents_schema (iter sample_ext {''ID'', ''Other''}) {} = {} \<and>
   rewrite_string sample_ext accidents_schema {''ID'', ''Other''} = Inr ''FROM accidents_fact''"
proof -
  have ok: "iter_ok (iter sample_ext)"
    by (simp add: iter_ok_def sample_ext_def)
  have a: "{d. \<exists>c \<in> {''ID'', ''Severity'', ''Other''}.
              col_to_table_map accidents_schema c = Some d \<and> d \<noteq> fact accidents_schema} =
           {''accidents_dim1''}"
    by (auto simp: accidents_schema_def)
  have b: "{d. \<exists>c \<in> {''ID'', ''Other''}.
              col_to_table_map accidents_schema c = Some d \<and> d \<noteq> fact accidents_schema} = {}"
    by (auto simp: accidents_schema_def)
  from ok a b
    plan_is_owning_dimensions [OF ok, of "{''ID'', ''Severity'', ''Other''}" accidents_schema]
    plan_is_owning_dimensions [OF ok, of "{''ID'', ''Other''}" accidents_schema]
  show ?thesis
    by (simp add: accidents_schema_def)
qed

text \<open>
  C10. When every owner named by \<^verbatim>\<open>col_to_table_map\<close> is the fact table or a key of
  \<^verbatim>\<open>dimension_tables\<close>, the lookup of the joining key finds a key for every table of the
  plan: the loop that builds the join clauses returns its list and the replacement text is
  built, whatever the referenced columns are; no \<^verbatim>\<open>KeyError\<close> is raised.
\<close>

theorem join_key_lookup_succeeds:
  assumes "iter_ok (iter ext)" and "finite column_names"
    and "ran (col_to_table_map schema) \<subseteq> insert (fact schema) (dom (dimension_tables schema))"
  shows "(\<exists>join_clauses.
            join_clauses_loop schema
              (iter ext (collect_dims schema (iter ext column_names) {})) [] = Inr join_clauses) \<and>
         (\<exists>text. rewrite_string ext schema column_names = Inr text)"
proof -
  let ?dims = "collect_dims schema (iter ext column_names) {}"
  have "finite ?dims"
    by (simp add: finite_collect_dims)
  with assms(1) have "set (iter ext ?dims) = ?dims"
    by (simp add: iter_ok_def)
  with plan_within_dimension_tables [OF assms(3)]
  have "set (iter ext ?dims) \<subseteq> dom (dimension_tables schema)"
    by simp
  from join_clauses_loop_ok [OF this, of "[]"] show ?thesis
    by (simp add: rewrite_string_def Let_def)
qed

theorem join_key_lookup_succeeds_witness:
  "iter_ok (iter sample_ext) \<and>
   ran (col_to_table_map accidents_schema) \<subseteq>
     insert (fact accidents_schema) (dom (dimension_tables accidents_schema)) \<and>
   (\<exists>text. rewrite_string sample_ext accidents_schema {''ID'', ''Severity''} = Inr text)"
proof -
  have ok: "iter_ok (iter sample_ext)"
    by (simp add: iter_ok_def sample_ext_def)
  have inv: "ran (col_to_table_map accidents_schema) \<subseteq>
      insert (fact accidents_schema) (dom (dimension_tables accidents_schema))"
    by (auto simp: accidents_schema_def ran_def split: if_splits)
  have fin: "finite {''ID'', ''Severity''}"
    by simp
  from ok inv join_key_lookup_succeeds [OF ok fin inv] show ?thesis
    by simp
qed

text \<open>
  C6. The pass of \<^verbatim>\<open>get_table_and_column_names\<close> over a tree returns the tree as it was,
  together with the names of all \<^verbatim>\<open>From\<close> nodes that carry a table name, at any depth and as
  they are written there (the alias plays no part), and the bare names of all \<^verbatim>\<open>Column\<close>
  nodes (the qualifier plays no part).
\<close>

theorem extractor_collects_names:
  "transform get_table_and_column_names ({}, {}) t =
     Inr ((name ` {n \<in> set (nodes t). is_From n \<and> name n \<noteq> []},
           name ` {n \<in> set (nodes t). is_Column n}), t)"
  using extract_gen(1) [of "{}" "{}" t] by simp

theorem extractor_collects_names_witness:
  "transform get_table_and_column_names ({}, {}) tree_union =
     Inr (({''accidents'', ''weather''}, {''ID''}), tree_union)"
proof -
  have l: "map name (filter (\<lambda>n. is_From n \<and> name n \<noteq> []) (nodes tree_union)) =
      [''accidents'', ''accidents'', ''weather'']"
    by (simp add: tree_union_def)
  have "name ` {n \<in> set (nodes tree_union). is_From n \<and> name n \<noteq> []} =
      set (map name (filter (\<lambda>n. is_From n \<and> name n \<noteq> []) (nodes tree_union)))"
    by simp
  then have a: "name ` {n \<in> set (nodes tree_union). is_From n \<and> name n \<noteq> []} =
      {''accidents'', ''weather''}"
    unfolding l by simp
  have m: "map name (filter is_Column (nodes tree_union)) = [''ID'', ''ID'', ''ID'']"
    by (simp add: tree_union_def)
  have "name ` {n \<in> set (nodes tree_union). is_Column n} =
      set (map name (filter is_Column (nodes tree_union)))"
    by simp
  then have b: "name ` {n \<in> set (nodes tree_union). is_Column n} = {''ID''}"
    unfolding m by simp
  from extractor_collects_names [of tree_union] a b show ?thesis
    by simp
qed

text \<open>
  C3. When the text parses and the extractor collects no column name from its tree,
  \<^verbatim>\<open>rewrite_sql\<close> returns the text it was given, not the printed tree, whatever the registry
  holds.
\<close>

theorem no_columns_returns_original_text:
  assumes "optimize ext sql_text = Inr t"
    and "transform get_table_and_column_names ({}, {}) t = Inr ((table_names, {}), t')"
  shows "rewrite_sql ext override_schemas sql_text = Inr sql_text"
  using assms by (simp add: rewrite_sql_def)

theorem no_columns_returns_original_text_witness:
  "optimize sample_ext ''select * from accidents limit 5'' = Inr tree_star \<and>
   transform get_table_and_column_names ({}, {}) tree_star =
     Inr (({''accidents''}, {}), tree_star) \<and>
   sample_registry ''accidents'' = Some accidents_schema \<and>
   sql sample_ext tree_star \<noteq> ''select * from accidents limit 5'' \<and>
   rewrite_sql sample_ext sample_registry ''select * from accidents limit 5'' =
     Inr ''select * from accidents limit 5''"
proof -
  have a: "optimize sample_ext ''select * from accidents limit 5'' = Inr tree_star"
    by (simp add: sample_ext_def sample_optimize_def)
  have b: "transform get_table_and_column_names ({}, {}) tree_star =
      Inr (({''accidents''}, {}), tree_star)"
    by (simp add: tree_star_def get_table_and_column_names_def)
  have c: "sql sample_ext tree_star \<noteq> ''select * from accidents limit 5''"
    by (simp add: sample_ext_def tree_star_def)
  from a b c no_columns_returns_original_text [OF a b, of sample_registry] show ?thesis
    by (simp add: sample_registry_def)
qed

text \<open>
  C7. A table whose registered schema has no dimension table is passed over: the loop body
  returns the tree it was given, so its \<^verbatim>\<open>From\<close> node is not replaced by the fact table.
\<close>

theorem empty_dimension_tables_no_rewrite:
  assumes "override_schemas table_name = Some schema"
    and "dimension_tables schema = Map.empty"
  shows "rewrite_table ext override_schemas column_names expression_tree table_name =
           Inr expression_tree"
  using assms by (simp add: rewrite_table_def)

theorem empty_dimension_tables_no_rewrite_witness:
  "sample_registry ''trips'' = Some trips_schema \<and>
   dimension_tables trips_schema = Map.empty \<and>
   rewrite_table sample_ext sample_registry {''ID''} tree_trips ''trips'' = Inr tree_trips \<and>
   rewrite_sql sample_ext sample_registry ''SELECT ID FROM trips'' = Inr ''SELECT ID FROM trips''"
proof -
  have a: "sample_registry ''trips'' = Some trips_schema"
    by (simp add: sample_registry_def)
  have b: "dimension_tables trips_schema = Map.empty"
    by (simp add: trips_schema_def)
  have c: "rewrite_sql sample_ext sample_registry ''SELECT ID FROM trips'' =
      Inr ''SELECT ID FROM trips''"
    by (simp add: rewrite_sql_def sample_ext_def sample_optimize_def tree_trips_def
        get_table_and_column_names_def sample_registry_def rewrite_table_def trips_schema_def)
  from a b c empty_dimension_tables_no_rewrite [of sample_registry "''trips''" trips_schema
      sample_ext "{''ID''}" tree_trips]
  show ?thesis
    by simp
qed

text \<open>
  C4 (amended). The text handed to the parser for a rewritten \<^verbatim>\<open>From\<close> node always ends
  in an alias, for the bare fact table and for the derived table alike: the alias of the
  original node when it has one, and the name of the logical table when it has none.
\<close>

theorem rewritten_from_alias_or_name:
  assumes "table_name \<noteq> []" and "al \<noteq> []"
  shows "rewrite_from ext table_name rewrite_str () (Node (From table_name (Some al)) cs) =
           (case parse_one ext (rewrite_str @ '' AS '' @ al) of
              Inl e \<Rightarrow> Inl e
            | Inr new_node \<Rightarrow> Inr ((), Some new_node)) \<and>
         rewrite_from ext table_name rewrite_str () (Node (From table_name None) cs) =
           (case parse_one ext (rewrite_str @ '' AS '' @ table_name) of
              Inl e \<Rightarrow> Inl e
            | Inr new_node \<Rightarrow> Inr ((), Some new_node))"
  using assms by (simp add: rewrite_from_def updated_text_def)

theorem rewritten_from_alias_or_name_witness:
  "rewrite_from sample_ext ''accidents'' ''FROM accidents_fact'' ()
       (Node (From ''accidents'' (Some ''a'')) []) =
     Inr ((), Some (Node (From ''accidents_fact'' (Some ''a'')) [])) \<and>
   rewrite_from sample_ext ''accidents'' ''FROM accidents_fact'' ()
       (Node (From ''accidents'' None) []) =
     Inr ((), Some (Node (From ''accidents_fact'' (Some ''accidents'')) []))"
  using rewritten_from_alias_or_name [of "''accidents''" "''a''" sample_ext
      "''FROM accidents_fact''" "[]"]
  by (simp add: sample_ext_def sample_parse_one_def)

text \<open>
  The claim as stated fails: for a \<^verbatim>\<open>From\<close> node without alias the text that replaces it
  carries the alias \<^verbatim>\<open>accidents\<close>, the name of the logical table.
\<close>

theorem unaliased_from_gets_alias:
  "alias_or_name (Node (From ''accidents'' None) []) = ''accidents'' \<and>
   updated_text ''FROM accidents_fact'' (Node (From ''accidents'' None) []) =
     ''FROM accidents_fact AS accidents'' \<and>
   updated_text
       ''FROM (SELECT * FROM accidents_dim1,accidents_fact WHERE accidents_fact.p1=accidents_dim1.p1)''
       (Node (From ''accidents'' None) []) =
     ''FROM (SELECT * FROM accidents_dim1,accidents_fact WHERE accidents_fact.p1=accidents_dim1.p1) AS accidents''"
  by (simp add: updated_text_def)




text \<open>
  C1 (amended). With a non-empty plan whose tables all have a joining key, the replacement
  text is \<^verbatim>\<open>FROM (SELECT * FROM tables WHERE conjuncts)\<close>: the tables are the fact table and
  the dimension tables of the plan, each once, separated by commas, in the order in which
  the set is run through (the fact table need not come first); the conjuncts are one
  equality \<^verbatim>\<open>fact.key=dim.key\<close> per dimension table of the plan, joined by \<^verbatim>\<open>AND\<close>.
\<close>

theorem derived_table_text:
  assumes "iter_ok (iter ext)" and "finite column_names"
    and "dims = {d. \<exists>c \<in> column_names. col_to_table_map schema c = Some d \<and> d \<noteq> fact schema}"
    and "dims \<noteq> {}"
    and "dims \<subseteq> dom (dimension_tables schema)"
  shows "rewrite_string ext schema column_names =
           Inr (''FROM (SELECT * FROM '' @
                str_join '','' (iter ext (insert (fact schema) dims)) @
                '' WHERE '' @
                str_join '' AND ''
                  (map (\<lambda>dim. fact schema @ ''.'' @ the (dimension_tables schema dim) @ ''='' @
                              dim @ ''.'' @ the (dimension_tables schema dim))
                     (iter ext dims)) @
                '')'') \<and>
         set (iter ext (insert (fact schema) dims)) = insert (fact schema) dims \<and>
         distinct (iter ext (insert (fact schema) dims)) \<and>
         set (iter ext dims) = dims \<and> distinct (iter ext dims)"
proof -
  have plan: "collect_dims schema (iter ext column_names) {} = dims"
    using plan_eq [OF assms(1,2)] assms(3) by simp
  have fin: "finite dims"
    using finite_collect_dims [of "{}" schema "iter ext column_names"] plan by simp
  from fin assms(1) have it: "set (iter ext dims) = dims" "distinct (iter ext dims)"
    by (simp_all add: iter_ok_def)
  from fin assms(1) have it': "set (iter ext (insert (fact schema) dims)) = insert (fact schema) dims"
    "distinct (iter ext (insert (fact schema) dims))"
    by (simp_all add: iter_ok_def)
  from it(1) assms(5) have "set (iter ext dims) \<subseteq> dom (dimension_tables schema)"
    by simp
  from join_clauses_loop_ok [OF this, of "[]"] plan assms(4)
  have "rewrite_string ext schema column_names =
           Inr (''FROM (SELECT * FROM '' @
                str_join '','' (iter ext (insert (fact schema) dims)) @
                '' WHERE '' @
                str_join '' AND ''
                  (map (\<lambda>dim. fact schema @ ''.'' @ the (dimension_tables schema dim) @ ''='' @
                              dim @ ''.'' @ the (dimension_tables schema dim))
                     (iter ext dims)) @
                '')'')"
    by (simp add: rewrite_string_def Let_def)
  with it it' show ?thesis
    by simp
qed

theorem derived_table_text_witness:
  "iter_ok (iter sample_ext_rev) \<and>
   {d. \<exists>c \<in> {''ID'', ''Severity''}.
      col_to_table_map accidents_schema c = Some d \<and> d \<noteq> fact accidents_schema} =
     {''accidents_dim1''} \<and>
   rewrite_string sample_ext_rev accidents_schema {''ID'', ''Severity''} =
     Inr ''FROM (SELECT * FROM accidents_fact,accidents_dim1 WHERE accidents_fact.p1=accidents_dim1.p1)''"
proof -
  have ok: "iter_ok (iter sample_ext_rev)"
    by (simp add: iter_ok_def sample_ext_rev_def sample_ext_def)
  have fin: "finite {''ID'', ''Severity''}"
    by simp
  have d: "{''accidents_dim1''} = {d. \<exists>c \<in> {''ID'', ''Severity''}.
      col_to_table_map accidents_schema c = Some d \<and> d \<noteq> fact accidents_schema}"
    by (auto simp: accidents_schema_def)
  have ne: "{''accidents_dim1''} \<noteq> ({} :: string set)"
    by simp
  have sub: "{''accidents_dim1''} \<subseteq> dom (dimension_tables accidents_schema)"
    by (simp add: accidents_schema_def)
  have it: "iter sample_ext_rev {''accidents_dim1''} = [''accidents_dim1'']"
    "iter sample_ext_rev (insert ''accidents_fact'' {''accidents_dim1''}) =
       [''accidents_fact'', ''accidents_dim1'']"
    by (simp_all add: sample_ext_rev_def sample_ext_def)
  have sc: "fact accidents_schema = ''accidents_fact''"
    "dimension_tables accidents_schema ''accidents_dim1'' = Some ''p1''"
    by (simp_all add: accidents_schema_def)
  from derived_table_text [OF ok fin d ne sub]
  have "rewrite_string sample_ext_rev accidents_schema {''ID'', ''Severity''} =
     Inr ''FROM (SELECT * FROM accidents_fact,accidents_dim1 WHERE accidents_fact.p1=accidents_dim1.p1)''"
    by (simp add: it sc)
  with ok d show ?thesis
    by simp
qed

text \<open>
  The claim as stated fails on the order of the table list: under a runtime that runs
  through a set of strings in ascending order, the dimension table comes before the fact
  table.
\<close>

theorem dimension_listed_before_fact:
  "iter_ok (iter sample_ext) \<and>
   rewrite_string sample_ext accidents_schema {''ID'', ''Severity''} =
     Inr ''FROM (SELECT * FROM accidents_dim1,accidents_fact WHERE accidents_fact.p1=accidents_dim1.p1)''"
  by (simp add: iter_ok_def rewrite_string_def sample_ext_def accidents_schema_def)

text \<open>
  C9 (amended). When at most one of the tables named in the query is rewritable and no
  referenced column is owned by one of its dimension tables, so that no join is built,
  \<^verbatim>\<open>rewrite_sql\<close> returns the same result under any two orders in which the runtime may run
  through sets. The result is then determined by the text and the registry (and the
  library) alone: the text itself without column names, else the printed tree, in which
  the \<^verbatim>\<open>From\<close> nodes of the rewritable table have been replaced using the text
  \<^verbatim>\<open>FROM fact\<close>.
\<close>

theorem rewrite_sql_set_order_independent:
  assumes "optimize ext' = optimize ext"
    and "parse_one ext' = parse_one ext"
    and "sql ext' = sql ext"
    and "iter_ok (iter ext)" and "iter_ok (iter ext')"
    and "optimize ext sql_text = Inr t"
    and "\<forall>x \<in> name ` {n \<in> set (nodes t). is_From n \<and> name n \<noteq> []}.
           x \<noteq> table_name \<longrightarrow> \<not> rewritable override_schemas x"
    and "\<forall>schema. override_schemas table_name = Some schema \<longrightarrow>
           {d. \<exists>c \<in> name ` {n \<in> set (nodes t). is_Column n}.
                 col_to_table_map schema c = Some d \<and> d \<noteq> fact schema} = {}"
  shows "rewrite_sql ext' override_schemas sql_text =
           rewrite_sql ext override_schemas sql_text \<and>
         rewrite_sql ext override_schemas sql_text =
           (if name ` {n \<in> set (nodes t). is_Column n} = {} then Inr sql_text
            else if table_name \<in> name ` {n \<in> set (nodes t). is_From n \<and> name n \<noteq> []} \<and>
                    rewritable override_schemas table_name
            then (case transform
                         (rewrite_from ext table_name
                            (''FROM '' @ fact (the (override_schemas table_name)))) () t of
                    Inl e \<Rightarrow> Inl e
                  | Inr (u, t') \<Rightarrow> Inr (sql ext t'))
            else Inr (sql ext t))"
proof -
  let ?tables = "name ` {n \<in> set (nodes t). is_From n \<and> name n \<noteq> []}"
  let ?columns = "name ` {n \<in> set (nodes t). is_Column n}"
  let ?result = "\<lambda>e. if ?columns = {} then Inr sql_text
            else if table_name \<in> ?tables \<and> rewritable override_schemas table_name
            then (case transform
                         (rewrite_from e table_name
                            (''FROM '' @ fact (the (override_schemas table_name)))) () t of
                    Inl e \<Rightarrow> Inl e
                  | Inr (u, t') \<Rightarrow> Inr (sql e t'))
            else Inr (sql e t)"
  have ex: "transform get_table_and_column_names ({}, {}) t = Inr ((?tables, ?columns), t)"
    using extract_gen(1) [of "{}" "{}" t] by simp
  have fin: "finite ?tables" "finite ?columns"
    by simp_all
  have res: "rewrite_sql e override_schemas sql_text = ?result e"
    if ok: "iter_ok (iter e)" and opt: "optimize e sql_text = Inr t" for e
  proof -
    from fin(1) ok have it: "set (iter e ?tables) = ?tables" "distinct (iter e ?tables)"
      by (simp_all add: iter_ok_def)
    have "rewrite_tables e override_schemas ?columns (iter e ?tables) t =
        (if table_name \<in> ?tables then rewrite_table e override_schemas ?columns t table_name
         else Inr t)"
      using rewrite_tables_one_rewritable [OF it(2), of table_name override_schemas e ?columns t]
        assms(7) it(1) by simp
    also have "rewrite_table e override_schemas ?columns t table_name =
        (if rewritable override_schemas table_name
         then (case transform
                      (rewrite_from e table_name
                         (''FROM '' @ fact (the (override_schemas table_name)))) () t of
                 Inl e \<Rightarrow> Inl e
               | Inr (u, t') \<Rightarrow> Inr t')
         else Inr t)"
      using rewrite_table_fact_only [of e ?columns override_schemas table_name t]
        ok fin(2) assms(8) by blast
    finally have "rewrite_tables e override_schemas ?columns (iter e ?tables) t =
        (if table_name \<in> ?tables \<and> rewritable override_schemas table_name
         then (case transform
                      (rewrite_from e table_name
                         (''FROM '' @ fact (the (override_schemas table_name)))) () t of
                 Inl e \<Rightarrow> Inl e
               | Inr (u, t') \<Rightarrow> Inr t')
         else Inr t)"
      by simp
    with opt ex show ?thesis
      by (auto simp: rewrite_sql_def split: sum.splits prod.splits)
  qed
  have rf: "rewrite_from ext' table_name = rewrite_from ext table_name"
    by (intro ext) (simp add: rewrite_from_def assms(2))
  have "?result ext' = ?result ext"
    unfolding rf assms(3) by (rule refl)
  moreover from assms(1,6) have "optimize ext' sql_text = Inr t"
    by simp
  ultimately have "rewrite_sql ext' override_schemas sql_text =
      rewrite_sql ext override_schemas sql_text"
    using res [OF assms(4,6)] res [OF assms(5)] by simp
  with res [OF assms(4,6)] show ?thesis
    by simp
qed

theorem rewrite_sql_set_order_independent_witness:
  "iter_ok (iter sample_ext) \<and> iter_ok (iter sample_ext_rev) \<and>
   iter sample_ext {''accidents'', ''trips''} \<noteq> iter sample_ext_rev {''accidents'', ''trips''} \<and>
   optimize sample_ext ''SELECT \"ID\" FROM accidents'' = Inr tree_fact_q \<and>
   rewritable sample_registry ''accidents'' \<and>
   rewrite_sql sample_ext sample_registry ''SELECT \"ID\" FROM accidents'' =
     Inr ''SELECT accidents.ID FROM accidents_fact AS accidents'' \<and>
   rewrite_sql sample_ext_rev sample_registry ''SELECT \"ID\" FROM accidents'' =
     rewrite_sql sample_ext sample_registry ''SELECT \"ID\" FROM accidents''"
proof -
  have lib: "optimize sample_ext_rev = optimize sample_ext"
    "parse_one sample_ext_rev = parse_one sample_ext" "sql sample_ext_rev = sql sample_ext"
    by (simp_all add: sample_ext_rev_def)
  have ok: "iter_ok (iter sample_ext)" "iter_ok (iter sample_ext_rev)"
    by (simp_all add: iter_ok_def sample_ext_rev_def sample_ext_def)
  have differ: "iter sample_ext {''accidents'', ''trips''} \<noteq>
      iter sample_ext_rev {''accidents'', ''trips''}"
    by (simp add: sample_ext_rev_def sample_ext_def)
  have opt: "optimize sample_ext ''SELECT \"ID\" FROM accidents'' = Inr tree_fact_q"
    by (simp add: sample_ext_def sample_optimize_def)
  have rw: "rewritable sample_registry ''accidents''"
    by (simp add: rewritable_def sample_registry_def accidents_schema_def)
  have tabs: "\<forall>x \<in> name ` {n \<in> set (nodes tree_fact_q). is_From n \<and> name n \<noteq> []}.
      x \<noteq> ''accidents'' \<longrightarrow> \<not> rewritable sample_registry x"
    by (auto simp: tree_fact_q_def)
  have plan: "\<forall>schema. sample_registry ''accidents'' = Some schema \<longrightarrow>
      {d. \<exists>c \<in> name ` {n \<in> set (nodes tree_fact_q). is_Column n}.
            col_to_table_map schema c = Some d \<and> d \<noteq> fact schema} = {}"
    by (auto simp: tree_fact_q_def sample_registry_def accidents_schema_def)
  have out: "rewrite_sql sample_ext sample_registry ''SELECT \"ID\" FROM accidents'' =
      Inr ''SELECT accidents.ID FROM accidents_fact AS accidents''"
    by (simp add: rewrite_sql_def sample_ext_def sample_optimize_def tree_fact_q_def
        get_table_and_column_names_def sample_registry_def rewrite_table_def accidents_schema_def
        rewrite_string_def rewrite_from_def updated_text_def sample_parse_one_def)
  from rewrite_sql_set_order_independent [OF lib ok opt tabs plan, THEN conjunct1]
    ok differ opt rw out
  show ?thesis
    by simp
qed

text \<open>
  The claim as stated fails: with the same registry and the same text, whose quoted column
  names the optimizer keeps as they are, a join is built, and two runtimes that run through
  sets in different orders return different texts.
\<close>

theorem output_depends_on_set_order:
  "optimize sample_ext_rev = optimize sample_ext \<and>
   parse_one sample_ext_rev = parse_one sample_ext \<and>
   sql sample_ext_rev = sql sample_ext \<and>
   iter_ok (iter sample_ext) \<and> iter_ok (iter sample_ext_rev) \<and>
   rewrite_sql sample_ext sample_registry ''SELECT \"ID\", \"Severity\" FROM accidents'' =
     Inr ''SELECT accidents.ID accidents.Severity FROM (SELECT * FROM accidents_dim1,accidents_fact WHERE accidents_fact.p1=accidents_dim1.p1) AS accidents'' \<and>
   rewrite_sql sample_ext_rev sample_registry ''SELECT \"ID\", \"Severity\" FROM accidents'' =
     Inr ''SELECT accidents.ID accidents.Severity FROM (SELECT * FROM accidents_fact,accidents_dim1 WHERE accidents_fact.p1=accidents_dim1.p1) AS accidents''"
  by (simp add: iter_ok_def rewrite_sql_def sample_ext_rev_def sample_ext_def sample_optimize_def
      tree_join_q_def get_table_and_column_names_def sample_registry_def rewrite_table_def
      accidents_schema_def rewrite_string_def rewrite_from_def updated_text_def
      sample_parse_one_def)

end
